theory Spec2Isabelle
  imports Main
begin

section \<open>YAML schema check of the engine reference (tools/checks/utils/schemas.ts)\<close>

text \<open>
  The module validates one YAML document of the engine reference against the JSON schema
  of its API type and reports what it finds. Its collaborators (the file system, the YAML
  and JSON parsers, Ajv, the console, the summary sink and the pull request comment
  service) are libraries or modules outside the file. They are taken as parameters,
  bundled in the record \<open>world\<close>, and every call the module makes on a reporting
  collaborator is recorded as an \<open>event\<close> of the trace that the model returns. An
  exception that leaves \<open>checkYamlSchema\<close> is the completion \<open>Threw\<close>.
\<close>

subsection \<open>The path pattern\<close>

text \<open>
  \<^verbatim>\<open>const regex = /reference\/engine\/([^\/]+)\/[^\/]+\.yaml/;\<close>

  The pattern is a sequence of a literal, a greedy \<^verbatim>\<open>[^\/]+\<close> inside the capture group,
  the literal \<^verbatim>\<open>/\<close>, a second greedy \<^verbatim>\<open>[^\/]+\<close> and the literal \<^verbatim>\<open>.yaml\<close>. It has no
  anchor and no flag. The matcher below is the backtracking matcher of that sequence:
  \<open>strip_prefix\<close> matches a literal, \<open>not_slash_plus k\<close> matches \<^verbatim>\<open>[^\/]+\<close> followed by
  the rest \<open>k\<close> of the pattern, trying the longest run first and giving characters
  back one at a time while the rest fails.
\<close>

fun strip_prefix :: "string \<Rightarrow> string \<Rightarrow> string option" where
  "strip_prefix [] s = Some s"
| "strip_prefix (p # ps) [] = None"
| "strip_prefix (p # ps) (c # cs) = (if p = c then strip_prefix ps cs else None)"

fun not_slash_plus :: "(string \<Rightarrow> 'a option) \<Rightarrow> string \<Rightarrow> (string \<times> 'a) option" where
  "not_slash_plus k [] = None"
| "not_slash_plus k (c # cs) =
     (if c = CHR ''/'' then None
      else (case not_slash_plus k cs of
              Some (m, r) \<Rightarrow> Some (c # m, r)
            | None \<Rightarrow> (case k cs of Some r \<Rightarrow> Some ([c], r) | None \<Rightarrow> None)))"

text \<open>The pattern tried at the start of \<open>s\<close>; the result is capture group 1.\<close>

definition regex_at :: "string \<Rightarrow> string option" where
  "regex_at s =
     (case strip_prefix ''reference/engine/'' s of
        None \<Rightarrow> None
      | Some s1 \<Rightarrow>
         (case not_slash_plus
                 (\<lambda>s2. case strip_prefix ''/'' s2 of
                         None \<Rightarrow> None
                       | Some s3 \<Rightarrow> not_slash_plus (strip_prefix ''.yaml'') s3) s1 of
            None \<Rightarrow> None
          | Some (g, _) \<Rightarrow> Some g))"

text \<open>
  \<^verbatim>\<open>filePath.match(regex)\<close> without the global flag: the start positions are tried from
  left to right and the first position with a match wins. \<open>None\<close> is \<^verbatim>\<open>null\<close>.
\<close>

fun string_match :: "string \<Rightarrow> string option" where
  "string_match [] = regex_at []"
| "string_match (c # cs) =
     (case regex_at (c # cs) of Some g \<Rightarrow> Some g | None \<Rightarrow> string_match cs)"

text \<open>
  \<^verbatim>\<open>const match = filePath.match(regex);
  return match && match[1] ? match[1] : undefined;\<close>

  An empty string is falsy in JavaScript, hence the test on \<open>g\<close>.
\<close>

definition getApiTypeFromFilePath :: "string \<Rightarrow> string option" where
  "getApiTypeFromFilePath filePath =
     (case string_match filePath of
        None \<Rightarrow> None
      | Some g \<Rightarrow> if g \<noteq> [] then Some g else None)"

subsection \<open>Values, exceptions and collaborators\<close>

text \<open>What \<^verbatim>\<open>parse\<close> of the yaml package and \<^verbatim>\<open>JSON.parse\<close> return: a JavaScript value.\<close>

datatype js_value =
    JNull
  | JBool bool
  | JNum int
  | JStr string
  | JArr "js_value list"
  | JObj "(string \<times> js_value) list"

text \<open>
  \<^verbatim>\<open>LinePos\<close> of the yaml package; \<^verbatim>\<open>linePos\<close> of a \<^verbatim>\<open>YAMLParseError\<close> is absent or a tuple
  of one or two positions.
\<close>

record LinePos =
  lp_line :: nat
  lp_col :: nat

text \<open>
  A thrown value: a \<^verbatim>\<open>YAMLParseError\<close> with its message and \<^verbatim>\<open>linePos\<close>, or any other
  error with its class name and message.
\<close>

datatype thrown =
    YAMLParseError string "(LinePos \<times> LinePos option) option"
  | OtherError string string

fun message :: "thrown \<Rightarrow> string" where
  "message (YAMLParseError m lp) = m"
| "message (OtherError n m) = m"

fun instanceof_YAMLParseError :: "thrown \<Rightarrow> bool" where
  "instanceof_YAMLParseError (YAMLParseError m lp) = True"
| "instanceof_YAMLParseError (OtherError n m) = False"

text \<open>
  Modelled from the spec: \<^verbatim>\<open>IConfig\<close> is declared in config.ts, outside schemas.ts; these
  are the fields that the interface description lists and that \<^verbatim>\<open>checkYamlSchema\<close> reads.
\<close>

record IConfig =
  postPullRequestComments :: bool
  commitHash :: string
  pullRequestNumber :: int
  repository :: string

text \<open>
  The argument object of \<^verbatim>\<open>createNewPullRequestComment\<close>; \<open>None\<close> is an absent key. The key
  \<^verbatim>\<open>repository\<close> is the field \<open>repo\<close> here, \<open>repository\<close> being a field of the
  configuration.
\<close>

record comment =
  body :: string
  commit_id :: string
  line :: nat
  path :: string
  pull_number :: int
  repo :: string
  subject_type :: "string option"

text \<open>
  A compiled Ajv validator applied to a document: the boolean it returns and the value
  it leaves in its \<^verbatim>\<open>errors\<close> property.
\<close>

type_synonym ValidateFunction = "js_value \<Rightarrow> bool \<times> js_value"

text \<open>
  \<^verbatim>\<open>const ajv = new Ajv.default({ strict: false });\<close>

  The module holds one Ajv instance for the life of the process, and the instance keeps
  what it has been given: the schemas it has compiled and the identifiers they
  registered. The only method that the module calls on it is \<^verbatim>\<open>compile\<close>, so its state is
  the list of the schemas passed to \<^verbatim>\<open>ajv.compile\<close> so far, oldest first, and what
  \<^verbatim>\<open>ajv.compile\<close> does with a schema may depend on that list (Ajv refuses a schema whose
  \<^verbatim>\<open>$id\<close> it has registered before).
\<close>

type_synonym Ajv = "js_value list"

text \<open>
  The collaborators. \<open>Inl\<close> is a thrown exception. \<^verbatim>\<open>repositoryRoot\<close> (files.ts),
  \<^verbatim>\<open>requiredCheckMessage\<close> (github.ts) and \<^verbatim>\<open>Emoji.NoEntry\<close> (utils.ts) are constants of
  modules outside the file.
\<close>

record world =
  readFileSync :: "string \<Rightarrow> thrown + string"
  yaml_parse :: "string \<Rightarrow> thrown + js_value"
  JSON_parse :: "string \<Rightarrow> thrown + js_value"
  ajv_compile :: "Ajv \<Rightarrow> js_value \<Rightarrow> thrown + ValidateFunction"
  JSON_stringify :: "js_value \<Rightarrow> string"
  repositoryRoot :: string
  requiredCheckMessage :: string
  Emoji_NoEntry :: string

text \<open>The calls that \<^verbatim>\<open>checkYamlSchema\<close> makes, in the order it makes them.\<close>

datatype event =
    ConsoleError string
  | ConsoleLog string
  | AddToSummaryOfRequirements string
  | CreateNewPullRequestComment comment
  | AjvCompile js_value
  | ValidatorCall js_value

datatype completion = Returned | Threw thrown

subsection \<open>The schema table\<close>

text \<open>
  \<^verbatim>\<open>const schemaPathMap: Record<string, string> = { classes: ..., ... };\<close>

  The table is an object literal, so \<^verbatim>\<open>schemaPathMap[apiType]\<close> is a property read: an own
  property if \<open>apiType\<close> is one of the five keys, otherwise whatever the prototype chain
  gives. The prototype of an object literal is \<^verbatim>\<open>Object.prototype\<close>, whose members are all
  truthy (functions, and the prototype object itself under \<^verbatim>\<open>__proto__\<close>); none is a
  string. Any other key reads as \<^verbatim>\<open>undefined\<close>.
\<close>

definition schemaPathMap :: "string \<Rightarrow> (string \<times> string) list" where
  "schemaPathMap root =
     [(''classes'', root @ ''/tools/schemas/engine/classes.json''),
      (''datatypes'', root @ ''/tools/schemas/engine/datatypes.json''),
      (''enums'', root @ ''/tools/schemas/engine/enums.json''),
      (''globals'', root @ ''/tools/schemas/engine/globals.json''),
      (''libraries'', root @ ''/tools/schemas/engine/libraries.json'')]"

definition Object_prototype_names :: "string list" where
  "Object_prototype_names =
     [''constructor'', ''__defineGetter__'', ''__defineSetter__'', ''hasOwnProperty'',
      ''__lookupGetter__'', ''__lookupSetter__'', ''isPrototypeOf'',
      ''propertyIsEnumerable'', ''toString'', ''valueOf'', ''__proto__'',
      ''toLocaleString'']"

datatype property = Undefined | OwnString string | Inherited string

definition get_property :: "(string \<times> string) list \<Rightarrow> string \<Rightarrow> property" where
  "get_property obj key =
     (case map_of obj key of
        Some v \<Rightarrow> OwnString v
      | None \<Rightarrow> if key \<in> set Object_prototype_names then Inherited key else Undefined)"

subsection \<open>Splitting a string\<close>

text \<open>
  \<^verbatim>\<open>s.split(sep)\<close> with a string separator: the pieces between the occurrences of \<open>sep\<close>,
  found from left to right without overlap; the empty separator splits into characters.
\<close>

fun String_split_from :: "string \<Rightarrow> string \<Rightarrow> string \<Rightarrow> string list" where
  "String_split_from sep cur [] = [cur]"
| "String_split_from sep cur (c # cs) =
     (if take (length sep) (c # cs) = sep
      then cur # String_split_from sep [] (drop (length sep - 1) cs)
      else String_split_from sep (cur @ [c]) cs)"

definition String_split :: "string \<Rightarrow> string \<Rightarrow> string list" where
  "String_split sep s = (if sep = [] then map (\<lambda>c. [c]) s else String_split_from sep [] s)"

text \<open>
  \<^verbatim>\<open>${parts[i]}\<close> inside a template literal: the element, or the text \<^verbatim>\<open>undefined\<close> when the
  index is out of range.
\<close>

definition template_index :: "string list \<Rightarrow> nat \<Rightarrow> string" where
  "template_index parts i = (if i < length parts then parts ! i else ''undefined'')"

text \<open>\<^verbatim>\<open>${schemaPath.split(repositoryRoot + '/')[1]}\<close>\<close>

definition schema_reference :: "string \<Rightarrow> string \<Rightarrow> string" where
  "schema_reference root schemaPath = template_index (String_split (root @ ''/'') schemaPath) 1"

subsection \<open>Loading a validator\<close>

text \<open>
  \<^verbatim>\<open>const getValidator = (schemaPath: string) => {
    const schema = JSON.parse(readFileSync(schemaPath, 'utf-8'));
    return ajv.compile(schema);
  };\<close>

  The function keeps nothing between two calls: each call reads the file, parses it and
  calls \<^verbatim>\<open>ajv.compile\<close> of the shared instance, in the state \<open>ajv\<close> that the earlier calls
  have left it in, on the freshly parsed object.
\<close>

definition getValidator ::
  "world \<Rightarrow> Ajv \<Rightarrow> string \<Rightarrow> event list \<times> (thrown + ValidateFunction)" where
  "getValidator w ajv schemaPath =
     (case readFileSync w schemaPath of
        Inl e \<Rightarrow> ([], Inl e)
      | Inr text \<Rightarrow>
          (case JSON_parse w text of
             Inl e \<Rightarrow> ([], Inl e)
           | Inr schema \<Rightarrow> ([AjvCompile schema], ajv_compile w ajv schema)))"

subsection \<open>checkYamlSchema\<close>

text \<open>The \<^verbatim>\<open>catch\<close> block of the parse step (lines 47 to 67).\<close>

definition parse_failed :: "world \<Rightarrow> IConfig \<Rightarrow> string \<Rightarrow> thrown \<Rightarrow> event list" where
  "parse_failed w config filePath e =
     (let msg = Emoji_NoEntry w @ '' Requirement: In '' @ filePath
                  @ '', error parsing YAML: '' @ message e
      in [ConsoleError msg, AddToSummaryOfRequirements msg] @
         (if instanceof_YAMLParseError e \<and> postPullRequestComments config
          then [CreateNewPullRequestComment
                  \<lparr>body = ''Error parsing YAML: '' @ message e @ ''\<newline>\<newline>''
                            @ requiredCheckMessage w,
                   commit_id = commitHash config,
                   line = (case e of
                             YAMLParseError m (Some (p, q)) \<Rightarrow> lp_line p
                           | _ \<Rightarrow> 1),
                   path = filePath,
                   pull_number = pullRequestNumber config,
                   repo = repository config,
                   subject_type = None\<rparr>]
          else []))"

text \<open>The branch taken when the validator rejects the document (lines 85 to 114).\<close>

definition validation_failed ::
  "world \<Rightarrow> IConfig \<Rightarrow> string \<Rightarrow> string \<Rightarrow> js_value \<Rightarrow> event list" where
  "validation_failed w config filePath schemaPath errors =
     (let validationErrors = JSON_stringify w errors;
          msg = Emoji_NoEntry w @ '' Requirement: In '' @ filePath
                  @ '', error validating YAML against schema ''
                  @ schema_reference (repositoryRoot w) schemaPath
                  @ '':\<newline>'' @ validationErrors
      in [ConsoleLog msg, AddToSummaryOfRequirements msg] @
         (if postPullRequestComments config
          then [CreateNewPullRequestComment
                  \<lparr>body = ''Error validating YAML against schema '' @ [CHR 0x60]
                            @ schema_reference (repositoryRoot w) schemaPath
                            @ [CHR 0x60] @ '':\<newline>''
                            @ [CHR 0x60, CHR 0x60, CHR 0x60] @ ''json\<newline>''
                            @ validationErrors @ ''\<newline>''
                            @ [CHR 0x60, CHR 0x60, CHR 0x60] @ ''\<newline>  \<newline>''
                            @ requiredCheckMessage w,
                   commit_id = commitHash config,
                   line = 1,
                   path = filePath,
                   pull_number = pullRequestNumber config,
                   repo = repository config,
                   subject_type = Some ''file''\<rparr>]
          else []))"

text \<open>
  The function itself. \<open>ajv\<close> is the state of the Ajv instance of the module when the
  invocation starts. \<open>content\<close> is a parameter of the source that the body never
  reads. \<^verbatim>\<open>readFileSync(filePath)\<close> stands before the \<^verbatim>\<open>try\<close>; only \<^verbatim>\<open>parse(yamlData)\<close> is
  inside it, and the \<^verbatim>\<open>catch\<close> takes every thrown value. \<^verbatim>\<open>!apiType\<close> and \<^verbatim>\<open>!schemaPath\<close>
  are truthiness tests: \<^verbatim>\<open>undefined\<close> and the empty string are falsy. When the property
  read gave an inherited member of \<^verbatim>\<open>Object.prototype\<close>, the test lets it through and
  \<^verbatim>\<open>getValidator\<close> hands it to \<^verbatim>\<open>readFileSync\<close>, which throws a \<^verbatim>\<open>TypeError\<close> for a path
  that is no string.
\<close>

definition no_api_type :: "string \<Rightarrow> event list \<times> completion" where
  "no_api_type filePath = ([ConsoleLog (''No API type found for '' @ filePath)], Returned)"

definition no_validator :: "string \<Rightarrow> string \<Rightarrow> event list \<times> completion" where
  "no_validator filePath apiType =
     ([ConsoleLog (''No validator found for file '' @ filePath
                    @ '' and API type '' @ apiType)], Returned)"

text \<open>
  The \<^verbatim>\<open>TypeError\<close> of Node for a path argument of the wrong type; the message is
  shortened.
\<close>

definition path_type_error :: thrown where
  "path_type_error =
     OtherError ''TypeError''
       ''The path argument must be of type string or an instance of Buffer or URL''"

definition validate_with ::
  "world \<Rightarrow> Ajv \<Rightarrow> IConfig \<Rightarrow> string \<Rightarrow> string \<Rightarrow> js_value \<Rightarrow> event list \<times> completion" where
  "validate_with w ajv config filePath schemaPath data =
     (case getValidator w ajv schemaPath of
        (evs, Inl e) \<Rightarrow> (evs, Threw e)
      | (evs, Inr validator) \<Rightarrow>
          (case validator data of
             (ok, errors) \<Rightarrow>
               (evs @ [ValidatorCall data] @
                (if \<not> ok then validation_failed w config filePath schemaPath errors
                 else []),
                Returned)))"

definition checkYamlSchema ::
  "world \<Rightarrow> Ajv \<Rightarrow> IConfig \<Rightarrow> string \<Rightarrow> string \<Rightarrow> event list \<times> completion" where
  "checkYamlSchema w ajv config content filePath =
     (case readFileSync w filePath of
        Inl e \<Rightarrow> ([], Threw e)
      | Inr yamlData \<Rightarrow>
          (case yaml_parse w yamlData of
             Inl e \<Rightarrow> (parse_failed w config filePath e, Returned)
           | Inr data \<Rightarrow>
               (case getApiTypeFromFilePath filePath of
                  None \<Rightarrow> no_api_type filePath
                | Some apiType \<Rightarrow>
                    if apiType = [] then no_api_type filePath
                    else
                      (case get_property (schemaPathMap (repositoryRoot w)) apiType of
                         Undefined \<Rightarrow> no_validator filePath apiType
                       | OwnString schemaPath \<Rightarrow>
                           if schemaPath = [] then no_validator filePath apiType
                           else validate_with w ajv config filePath schemaPath data
                       | Inherited name \<Rightarrow> ([], Threw path_type_error)))))"


subsection \<open>Reading a trace\<close>

fun is_comment :: "event \<Rightarrow> bool" where
  "is_comment (CreateNewPullRequestComment c) = True"
| "is_comment _ = False"

fun is_summary :: "event \<Rightarrow> bool" where
  "is_summary (AddToSummaryOfRequirements m) = True"
| "is_summary _ = False"

fun is_console :: "event \<Rightarrow> bool" where
  "is_console (ConsoleError m) = True"
| "is_console (ConsoleLog m) = True"
| "is_console _ = False"

fun is_compile :: "event \<Rightarrow> bool" where
  "is_compile (AjvCompile schema) = True"
| "is_compile _ = False"

fun is_validator_call :: "event \<Rightarrow> bool" where
  "is_validator_call (ValidatorCall d) = True"
| "is_validator_call _ = False"

subsection \<open>Several invocations\<close>

text \<open>The schemas that the calls of \<^verbatim>\<open>ajv.compile\<close> in a trace have added to the instance.\<close>

fun compiled :: "event list \<Rightarrow> js_value list" where
  "compiled [] = []"
| "compiled (AjvCompile schema # evs) = schema # compiled evs"
| "compiled (ev # evs) = compiled evs"

text \<open>
  Modelled from the spec: the caller of \<^verbatim>\<open>checkYamlSchema\<close> is outside schemas.ts. A process
  run is a sequence of invocations, one document each, in the same world and on the same
  Ajv instance: each invocation finds the instance in the state that the invocations
  before it have left, \<open>ajv\<close> being its state at the start of the run (empty for a new
  process). An exception that leaves an invocation ends the run. The arguments of an
  invocation are \<open>(config, content, filePath)\<close>.
\<close>

fun process_run ::
  "world \<Rightarrow> Ajv \<Rightarrow> (IConfig \<times> string \<times> string) list \<Rightarrow> event list \<times> completion" where
  "process_run w ajv [] = ([], Returned)"
| "process_run w ajv ((config, content, filePath) # calls) =
     (case checkYamlSchema w ajv config content filePath of
        (evs, Returned) \<Rightarrow>
          (case process_run w (ajv @ compiled evs) calls of (evs', c) \<Rightarrow> (evs @ evs', c))
      | (evs, Threw e) \<Rightarrow> (evs, Threw e))"

text \<open>
  An invocation on \<open>filePath\<close> gets as far as \<^verbatim>\<open>ajv.compile\<close> with \<open>schema\<close>: the document is
  read and parsed, its path gives an API type with an entry in the schema table, and the
  schema file is read and parsed as JSON. What \<^verbatim>\<open>ajv.compile\<close> then does is no part of it.
\<close>

definition reaches_compile :: "world \<Rightarrow> string \<Rightarrow> js_value \<Rightarrow> bool" where
  "reaches_compile w filePath schema =
     (\<exists>yamlData data T schemaPath text.
        readFileSync w filePath = Inr yamlData \<and> yaml_parse w yamlData = Inr data \<and>
        getApiTypeFromFilePath filePath = Some T \<and>
        map_of (schemaPathMap (repositoryRoot w)) T = Some schemaPath \<and>
        readFileSync w schemaPath = Inr text \<and> JSON_parse w text = Inr schema)"

subsection \<open>The path convention in the words of the specification\<close>

text \<open>
  The text \<^verbatim>\<open>reference/engine/<seg>/<file>.<ext>\<close>, and the statement that such a text with
  the extension \<^verbatim>\<open>yaml\<close> starts at offset \<open>i\<close> of a path, \<open>seg\<close> and the file name being
  path components: not empty and without a separator.
\<close>

definition engine_segment :: "string \<Rightarrow> string \<Rightarrow> string \<Rightarrow> string" where
  "engine_segment seg fname ext = ''reference/engine/'' @ seg @ ''/'' @ fname @ ''.'' @ ext"

definition occurs_at :: "string \<Rightarrow> nat \<Rightarrow> string \<Rightarrow> bool" where
  "occurs_at p i seg =
     (seg \<noteq> [] \<and> CHR ''/'' \<notin> set seg \<and>
      (\<exists>fname post. fname \<noteq> [] \<and> CHR ''/'' \<notin> set fname \<and>
         drop i p = engine_segment seg fname ''yaml'' @ post))"

subsection \<open>A small world to run the check in\<close>

text \<open>
  An enum document whose schema asks for at least one value, in five states: valid,
  without values, cut off in the middle of a flow sequence (with and without a reported
  position), and built from aliases beyond the alias limit of the yaml package, on which
  \<^verbatim>\<open>parse\<close> throws a \<^verbatim>\<open>ReferenceError\<close> and no \<^verbatim>\<open>YAMLParseError\<close>; the text of that last
  document is only described. Four more documents lie outside the five directories of
  API types. The schema of enums has no \<^verbatim>\<open>$id\<close>, and Ajv compiles it as often as it is asked
  to.
\<close>

definition example_schema :: js_value where
  "example_schema =
     JObj [(''required'', JArr [JStr ''values'']),
           (''properties'', JObj [(''values'', JObj [(''minItems'', JNum 1)])])]"

definition example_errors :: js_value where
  "example_errors = JArr [JObj [(''keyword'', JStr ''minItems'')]]"

definition example_validator :: ValidateFunction where
  "example_validator d =
     (if d = JObj [(''values'', JArr [])] then (False, example_errors) else (True, JNull))"

definition example_files :: "string \<Rightarrow> (string \<times> string) list" where
  "example_files root =
     [(''reference/engine/enums/Ok.yaml'', ''values: [A, B]''),
      (''reference/engine/enums/Empty.yaml'', ''values: []''),
      (''reference/engine/enums/Cut.yaml'', ''values: [A''),
      (''reference/engine/enums/Bare.yaml'', ''values: {''),
      (''reference/engine/enums/Aliases.yaml'', ''(aliases nested beyond the alias limit)''),
      (''reference/engine/constructor/Ok.yaml'', ''values: [A, B]''),
      (''reference/engine/toString/Ok.yaml'', ''values: [A, B]''),
      (''reference/engine/widgets/Ok.yaml'', ''values: [A, B]''),
      (''content/guide/Intro.yaml'', ''values: [A, B]''),
      (root @ ''/tools/schemas/engine/enums.json'', ''{ schema of enums }'')]"

definition example_yaml :: "string \<Rightarrow> thrown + js_value" where
  "example_yaml text =
     (if text = ''values: [A, B]'' then Inr (JObj [(''values'', JArr [JStr ''A'', JStr ''B''])])
      else if text = ''values: []'' then Inr (JObj [(''values'', JArr [])])
      else if text = ''values: [A''
      then Inl (YAMLParseError ''Flow sequence must end with a ]''
                  (Some (\<lparr>lp_line = 3, lp_col = 11\<rparr>, None)))
      else if text = ''values: {''
      then Inl (YAMLParseError ''Flow map must end with a }'' None)
      else if text = ''(aliases nested beyond the alias limit)''
      then Inl (OtherError ''ReferenceError''
                  ''Excessive alias count indicates a resource exhaustion attack'')
      else Inr JNull)"

definition example_world :: "string \<Rightarrow> world" where
  "example_world root =
     \<lparr>readFileSync = (\<lambda>p. case map_of (example_files root) p of
                             Some text \<Rightarrow> Inr text
                           | None \<Rightarrow> Inl (OtherError ''Error'' ''ENOENT: no such file or directory'')),
      yaml_parse = example_yaml,
      JSON_parse = (\<lambda>text. if text = ''{ schema of enums }'' then Inr example_schema
                            else Inl (OtherError ''SyntaxError'' ''Unexpected token'')),
      ajv_compile = (\<lambda>ajv schema. if schema = example_schema then Inr example_validator
                                   else Inl (OtherError ''Error'' ''schema is invalid'')),
      JSON_stringify = (\<lambda>v. if v = JNull then ''null'' else ''[ minItems ]''),
      repositoryRoot = root,
      requiredCheckMessage = ''This check is required for merging.'',
      Emoji_NoEntry = ''(no entry)''\<rparr>"

text \<open>
  The same world with a schema of enums that carries an \<^verbatim>\<open>$id\<close>: Ajv registers the
  identifier at the first \<^verbatim>\<open>compile\<close> and throws at every later one, the parsed schema being
  a new object each time.
\<close>

definition example_schema_with_id :: js_value where
  "example_schema_with_id =
     JObj [(''$id'', JStr ''enums''), (''required'', JArr [JStr ''values'']),
           (''properties'', JObj [(''values'', JObj [(''minItems'', JNum 1)])])]"

definition example_world_with_id :: "string \<Rightarrow> world" where
  "example_world_with_id root =
     (example_world root)
       \<lparr>JSON_parse := (\<lambda>text. if text = ''{ schema of enums }'' then Inr example_schema_with_id
                              else Inl (OtherError ''SyntaxError'' ''Unexpected token'')),
        ajv_compile := (\<lambda>ajv schema.
                          if schema \<in> set ajv
                          then Inl (OtherError ''Error'' ''schema with key or id enums already exists'')
                          else Inr example_validator)\<rparr>"

definition example_config :: "bool \<Rightarrow> IConfig" where
  "example_config post =
     \<lparr>postPullRequestComments = post,
      commitHash = ''0a1b2c3'',
      pullRequestNumber = 42,
      repository = ''Roblox/creator-docs''\<rparr>"


section \<open>Properties of the path pattern\<close>

subsection \<open>The matcher and the occurrences of the pattern\<close>

lemma strip_prefix_Some: "(strip_prefix p s = Some r) = (s = p @ r)"
  by (induction p s rule: strip_prefix.induct) auto

lemma not_slash_plus_sound:
  "not_slash_plus k s = Some (m, r) \<Longrightarrow>
     m \<noteq> [] \<and> CHR ''/'' \<notin> set m \<and> (\<exists>t. s = m @ t \<and> k t = Some r)"
  by (induction s arbitrary: m r) (auto split: if_splits option.splits)

lemma not_slash_plus_complete:
  "m \<noteq> [] \<Longrightarrow> CHR ''/'' \<notin> set m \<Longrightarrow> k t = Some r \<Longrightarrow>
     not_slash_plus k (m @ t) \<noteq> None"
proof (induction m)
  case Nil
  then show ?case by simp
next
  case (Cons c m)
  show ?case
  proof (cases "m = []")
    case True
    with Cons.prems show ?thesis by (auto split: option.splits)
  next
    case False
    with Cons have "not_slash_plus k (m @ t) \<noteq> None" by simp
    with Cons.prems show ?thesis by (auto split: option.splits)
  qed
qed

lemma segment_unique:
  assumes "CHR ''/'' \<notin> set a" "CHR ''/'' \<notin> set b"
    and "a @ CHR ''/'' # x = b @ CHR ''/'' # y"
  shows "a = b"
proof -
  have "takeWhile (\<lambda>c. c \<noteq> CHR ''/'') (a @ CHR ''/'' # x) = a"
    using assms(1) by (auto simp: takeWhile_tail)
  moreover have "takeWhile (\<lambda>c. c \<noteq> CHR ''/'') (b @ CHR ''/'' # y) = b"
    using assms(2) by (auto simp: takeWhile_tail)
  ultimately show ?thesis using assms(3) by simp
qed

lemma regex_at_Some_iff:
  "(regex_at s = Some g) =
     (g \<noteq> [] \<and> CHR ''/'' \<notin> set g \<and>
      (\<exists>fname post. fname \<noteq> [] \<and> CHR ''/'' \<notin> set fname \<and>
         s = engine_segment g fname ''yaml'' @ post))"
proof
  assume m: "regex_at s = Some g"
  let ?k = "\<lambda>s2. case strip_prefix ''/'' s2 of None \<Rightarrow> None
                  | Some s3 \<Rightarrow> not_slash_plus (strip_prefix ''.yaml'') s3"
  from m obtain s1 where s1: "s = ''reference/engine/'' @ s1"
    by (auto simp: regex_at_def strip_prefix_Some split: option.splits)
  from m s1 obtain r where g: "not_slash_plus ?k s1 = Some (g, r)"
    by (auto simp: regex_at_def split: option.splits)
  from not_slash_plus_sound [OF g] obtain t
    where gp: "g \<noteq> []" "CHR ''/'' \<notin> set g" and t: "s1 = g @ t" "?k t = Some r"
    by blast
  from t(2) obtain s3 where s3: "t = ''/'' @ s3"
    by (auto simp: strip_prefix_Some split: option.splits)
  with t(2) obtain fname post where f: "not_slash_plus (strip_prefix ''.yaml'') s3 = Some (fname, post)"
    by (cases r) (auto split: option.splits)
  from not_slash_plus_sound [OF f] obtain t'
    where fp: "fname \<noteq> []" "CHR ''/'' \<notin> set fname"
      and t': "s3 = fname @ t'" "strip_prefix ''.yaml'' t' = Some post"
    by blast
  from t'(2) have "t' = ''.yaml'' @ post" by (simp only: strip_prefix_Some)
  with s1 t(1) s3 t'(1) have "s = engine_segment g fname ''yaml'' @ post"
    by (simp add: engine_segment_def)
  with gp fp show "g \<noteq> [] \<and> CHR ''/'' \<notin> set g \<and>
      (\<exists>fname post. fname \<noteq> [] \<and> CHR ''/'' \<notin> set fname \<and>
         s = engine_segment g fname ''yaml'' @ post)" by blast
next
  assume "g \<noteq> [] \<and> CHR ''/'' \<notin> set g \<and>
      (\<exists>fname post. fname \<noteq> [] \<and> CHR ''/'' \<notin> set fname \<and>
         s = engine_segment g fname ''yaml'' @ post)"
  then obtain fname post where gp: "g \<noteq> []" "CHR ''/'' \<notin> set g"
    and fp: "fname \<noteq> []" "CHR ''/'' \<notin> set fname"
    and s: "s = engine_segment g fname ''yaml'' @ post" by blast
  let ?k = "\<lambda>s2. case strip_prefix ''/'' s2 of None \<Rightarrow> None
                  | Some s3 \<Rightarrow> not_slash_plus (strip_prefix ''.yaml'') s3"
  have "strip_prefix ''.yaml'' (''.yaml'' @ post) = Some post"
    by (simp only: strip_prefix_Some)
  from not_slash_plus_complete [of fname "strip_prefix ''.yaml''" "''.yaml'' @ post" post, OF fp this]
  obtain fr where fr: "not_slash_plus (strip_prefix ''.yaml'') (fname @ ''.yaml'' @ post) = Some fr"
    by blast
  then have k: "?k (''/'' @ fname @ ''.yaml'' @ post) = Some fr" by simp
  from not_slash_plus_complete [of g ?k "''/'' @ fname @ ''.yaml'' @ post" fr, OF gp k]
  obtain g' r' where g': "not_slash_plus ?k (g @ ''/'' @ fname @ ''.yaml'' @ post) = Some (g', r')"
    by (cases "not_slash_plus ?k (g @ ''/'' @ fname @ ''.yaml'' @ post)") auto
  from not_slash_plus_sound [OF g'] obtain t
    where g'p: "CHR ''/'' \<notin> set g'" and t: "g @ ''/'' @ fname @ ''.yaml'' @ post = g' @ t"
      "?k t = Some r'" by blast
  from t(2) obtain s3 where "t = CHR ''/'' # s3"
    by (auto simp: strip_prefix_Some split: option.splits)
  with t(1) have "g @ CHR ''/'' # (fname @ ''.yaml'' @ post) = g' @ CHR ''/'' # s3" by simp
  from segment_unique [OF gp(2) g'p this] have "g' = g" by simp
  with g' have "not_slash_plus ?k (g @ ''/'' @ fname @ ''.yaml'' @ post) = Some (g, r')" by simp
  moreover have "strip_prefix ''reference/engine/'' s = Some (g @ ''/'' @ fname @ ''.yaml'' @ post)"
    unfolding strip_prefix_Some s engine_segment_def by simp
  ultimately show "regex_at s = Some g"
    by (simp add: regex_at_def)
qed


lemma occurs_at_iff: "occurs_at p i seg = (regex_at (drop i p) = Some seg)"
  by (simp add: occurs_at_def regex_at_Some_iff)

lemma string_match_here: "regex_at t = Some g \<Longrightarrow> string_match t = Some g"
  by (cases t) simp_all

lemma string_match_skip:
  "(\<forall>j<length pre. regex_at (drop j (pre @ t)) = None) \<Longrightarrow>
     string_match (pre @ t) = string_match t"
proof (induction pre)
  case Nil
  then show ?case by simp
next
  case (Cons c pre)
  from Cons.prems have "regex_at (drop 0 ((c # pre) @ t)) = None" by blast
  then have here: "regex_at (c # pre @ t) = None" by simp
  have "\<forall>j<length pre. regex_at (drop j (pre @ t)) = None"
  proof (intro allI impI)
    fix j assume "j < length pre"
    then have "Suc j < length (c # pre)" by simp
    with Cons.prems have "regex_at (drop (Suc j) ((c # pre) @ t)) = None" by blast
    then show "regex_at (drop j (pre @ t)) = None" by simp
  qed
  with Cons.IH have "string_match (pre @ t) = string_match t" by simp
  with here show ?case by simp
qed

lemma string_match_None:
  "(\<forall>j. regex_at (drop j s) = None) \<Longrightarrow> string_match s = None"
proof (induction s)
  case Nil
  from Nil have "regex_at (drop 0 []) = None" by blast
  then show ?case by simp
next
  case (Cons c s)
  from Cons.prems have "regex_at (drop 0 (c # s)) = None" by blast
  then have here: "regex_at (c # s) = None" by simp
  have "\<forall>j. regex_at (drop j s) = None"
  proof
    fix j
    from Cons.prems have "regex_at (drop (Suc j) (c # s)) = None" by blast
    then show "regex_at (drop j s) = None" by simp
  qed
  with Cons.IH have "string_match s = None" by simp
  with here show ?case by simp
qed

lemma string_match_Some:
  "string_match s = Some g \<Longrightarrow>
     \<exists>j. regex_at (drop j s) = Some g \<and> (\<forall>i<j. regex_at (drop i s) = None)"
proof (induction s)
  case Nil
  then have "regex_at (drop 0 []) = Some g" by simp
  then show ?case by blast
next
  case (Cons c s)
  show ?case
  proof (cases "regex_at (c # s)")
    case (Some g')
    with Cons.prems have "regex_at (drop 0 (c # s)) = Some g" by simp
    then show ?thesis by blast
  next
    case None
    with Cons.prems have "string_match s = Some g" by simp
    with Cons.IH obtain j where j: "regex_at (drop j s) = Some g"
      "\<forall>i<j. regex_at (drop i s) = None" by blast
    have "\<forall>i<Suc j. regex_at (drop i (c # s)) = None"
    proof (intro allI impI)
      fix i assume "i < Suc j"
      then show "regex_at (drop i (c # s)) = None"
        using None j(2) by (cases i) simp_all
    qed
    moreover from j(1) have "regex_at (drop (Suc j) (c # s)) = Some g" by simp
    ultimately show ?thesis by blast
  qed
qed

lemma string_match_first:
  assumes "regex_at (drop i p) = Some g" and "\<forall>j<i. regex_at (drop j p) = None"
  shows "string_match p = Some g"
proof -
  from assms(1) have "drop i p \<noteq> []"
    by (auto simp: regex_at_def)
  then have len: "length (take i p) = i" by simp
  have "string_match (take i p @ drop i p) = string_match (drop i p)"
    using assms(2) by (intro string_match_skip) (simp only: len append_take_drop_id)
  with assms(1) show ?thesis by (simp add: string_match_here)
qed

lemma regex_at_nonempty: "regex_at s = Some g \<Longrightarrow> g \<noteq> []"
  by (simp add: regex_at_Some_iff)

lemma getApiTypeFromFilePath_first:
  assumes "occurs_at p i seg" and "\<forall>j<i. \<forall>s. \<not> occurs_at p j s"
  shows "getApiTypeFromFilePath p = Some seg"
proof -
  from assms have "string_match p = Some seg"
    by (intro string_match_first [of i]) (simp_all add: occurs_at_iff)
  moreover from assms(1) have "seg \<noteq> []" by (simp add: occurs_at_def)
  ultimately show ?thesis by (simp add: getApiTypeFromFilePath_def)
qed

lemma getApiTypeFromFilePath_Some:
  assumes "getApiTypeFromFilePath p = Some T"
  shows "\<exists>j. occurs_at p j T \<and> (\<forall>i<j. \<forall>s. \<not> occurs_at p i s)"
proof -
  from assms have "string_match p = Some T"
    by (auto simp: getApiTypeFromFilePath_def split: option.splits if_splits)
  from string_match_Some [OF this] show ?thesis
    by (simp add: occurs_at_iff)
qed

lemma getApiTypeFromFilePath_None:
  assumes "\<forall>j s. \<not> occurs_at p j s"
  shows "getApiTypeFromFilePath p = None"
proof -
  from assms have "\<forall>j. regex_at (drop j p) = None" by (simp add: occurs_at_iff)
  then have "string_match p = None" by (rule string_match_None)
  then show ?thesis by (simp add: getApiTypeFromFilePath_def)
qed

lemma occurs_at_segment:
  assumes "seg \<noteq> []" "CHR ''/'' \<notin> set seg" "fname \<noteq> []" "CHR ''/'' \<notin> set fname"
  shows "occurs_at (pre @ engine_segment seg fname ''yaml'' @ post) (length pre) seg"
  using assms by (auto simp: occurs_at_def)

lemma known_type_segment:
  "T \<in> fst ` set (schemaPathMap root) \<Longrightarrow> T \<noteq> [] \<and> CHR ''/'' \<notin> set T"
  by (auto simp: schemaPathMap_def)


lemma string_match_found:
  "regex_at (drop i p) \<noteq> None \<Longrightarrow> string_match p \<noteq> None"
proof (induction p arbitrary: i)
  case Nil
  then show ?case by simp
next
  case (Cons c p)
  show ?case
  proof (cases i)
    case 0
    with Cons.prems show ?thesis by (auto split: option.splits)
  next
    case (Suc i')
    with Cons.prems have "regex_at (drop i' p) \<noteq> None" by simp
    then have "string_match p \<noteq> None" by (rule Cons.IH)
    then show ?thesis by (auto split: option.splits)
  qed
qed

lemma too_short_no_occurrence: "length p < 25 \<Longrightarrow> \<not> occurs_at p j s"
proof
  assume len: "length p < 25" and "occurs_at p j s"
  then obtain fname post where "s \<noteq> []" "fname \<noteq> []"
    and d: "drop j p = engine_segment s fname ''yaml'' @ post"
    by (auto simp: occurs_at_def)
  from d have "length (drop j p) = length (engine_segment s fname ''yaml'' @ post)" by simp
  then have "length p \<ge> 23 + length s + length fname"
    by (simp add: engine_segment_def)
  moreover from \<open>s \<noteq> []\<close> \<open>fname \<noteq> []\<close> have "length s \<ge> 1" "length fname \<ge> 1"
    by (simp_all add: Suc_le_eq)
  ultimately show False using len by simp
qed


subsection \<open>Extraction of the API type\<close>

text \<open>
  Claim C2 says that a path \<^verbatim>\<open>.../reference/engine/<T>/<name>.yaml\<close> with \<open>T\<close> one of the five
  API types gives \<open>T\<close>, and that every other path gives no type. Both halves fail. The
  pattern takes the first place where it matches, so a directory named like a YAML file
  under an earlier \<^verbatim>\<open>reference/engine/<seg>/\<close> hides the later type; and the captured
  segment is any path component, so a path whose segment is none of the five still
  gives a type.
\<close>

theorem api_type_of_known_path_counterexample:
  "getApiTypeFromFilePath (''reference/engine/foo/a.yaml/'' @ engine_segment ''classes'' ''Bar'' ''yaml'')
     = Some ''foo'' \<and>
   getApiTypeFromFilePath (engine_segment ''foo'' ''x'' ''yaml'') = Some ''foo'' \<and>
   ''foo'' \<notin> fst ` set (schemaPathMap [])"
  by (simp add: getApiTypeFromFilePath_def engine_segment_def regex_at_def schemaPathMap_def)


text \<open>
  Claim C2 as amended: a path \<open>pre @ reference/engine/T/name.yaml\<close>, \<open>T\<close> one of the five
  keys of the schema table and \<open>name\<close> a file name, gives \<open>T\<close> when the pattern occurs
  nowhere before that place; a path in which \<^verbatim>\<open>reference/engine/<seg>/<file>.yaml\<close> occurs
  nowhere gives no type.
\<close>

theorem api_type_of_known_path:
  "(T \<in> fst ` set (schemaPathMap root) \<and> fname \<noteq> [] \<and> CHR ''/'' \<notin> set fname \<and>
    (\<forall>j<length pre. \<forall>s. \<not> occurs_at (pre @ engine_segment T fname ''yaml'') j s)
      \<longrightarrow> getApiTypeFromFilePath (pre @ engine_segment T fname ''yaml'') = Some T) \<and>
   ((\<forall>j s. \<not> occurs_at p j s) \<longrightarrow> getApiTypeFromFilePath p = None)"
proof (intro conjI impI)
  assume a: "T \<in> fst ` set (schemaPathMap root) \<and> fname \<noteq> [] \<and> CHR ''/'' \<notin> set fname \<and>
    (\<forall>j<length pre. \<forall>s. \<not> occurs_at (pre @ engine_segment T fname ''yaml'') j s)"
  then have T: "T \<noteq> []" "CHR ''/'' \<notin> set T" using known_type_segment by blast+
  from a have f: "fname \<noteq> []" "CHR ''/'' \<notin> set fname" by blast+
  from occurs_at_segment [OF T f, of pre "[]"]
  have "occurs_at (pre @ engine_segment T fname ''yaml'') (length pre) T" by simp
  with a show "getApiTypeFromFilePath (pre @ engine_segment T fname ''yaml'') = Some T"
    by (intro getApiTypeFromFilePath_first [of _ "length pre"]) blast+
next
  assume "\<forall>j s. \<not> occurs_at p j s"
  then show "getApiTypeFromFilePath p = None" by (rule getApiTypeFromFilePath_None)
qed

theorem api_type_of_known_path_witness:
  "getApiTypeFromFilePath (''content/'' @ engine_segment ''enums'' ''Font'' ''yaml'') = Some ''enums'' \<and>
   getApiTypeFromFilePath ''README.md'' = None"
proof -
  let ?p = "''content/'' @ engine_segment ''enums'' ''Font'' ''yaml''"
  have known: "''enums'' \<in> fst ` set (schemaPathMap [])"
    by (simp add: schemaPathMap_def)
  have first: "\<forall>j<length ''content/''. \<forall>s. \<not> occurs_at ?p j s"
    by (simp add: occurs_at_iff All_less_Suc numeral_eq_Suc regex_at_def engine_segment_def)
  have none: "\<forall>j s. \<not> occurs_at ''README.md'' j s"
    by (simp add: too_short_no_occurrence)
  from api_type_of_known_path [of "''enums''" "[]" "''Font''" "''content/''" "''README.md''"]
    known first none
  show ?thesis by simp
qed


text \<open>
  Claim C8 says that a path is recognised whatever the extension of the file is. The
  pattern asks for the text \<^verbatim>\<open>.yaml\<close> after the file name; a JSON file in a directory of
  classes gives no type.
\<close>

theorem other_extension_counterexample:
  "getApiTypeFromFilePath (engine_segment ''classes'' ''Foo'' ''json'') = None"
  by (simp add: getApiTypeFromFilePath_def engine_segment_def regex_at_def)


text \<open>
  Claim C8 as amended: every path that contains \<^verbatim>\<open>reference/engine/<seg>/<file>.yaml\<close>, the
  segment and the file name being path components, with any text before it and any text
  after the \<^verbatim>\<open>.yaml\<close>, is recognised, and the type returned is the segment captured at the
  first place of the path where that pattern occurs, which is the given place or one
  before it.
\<close>

theorem yaml_segment_recognized:
  assumes "seg \<noteq> []" "CHR ''/'' \<notin> set seg" "fname \<noteq> []" "CHR ''/'' \<notin> set fname"
  shows "\<exists>T j. getApiTypeFromFilePath (pre @ engine_segment seg fname ''yaml'' @ post) = Some T \<and>
           occurs_at (pre @ engine_segment seg fname ''yaml'' @ post) j T \<and> j \<le> length pre \<and>
           (\<forall>i<j. \<forall>s. \<not> occurs_at (pre @ engine_segment seg fname ''yaml'' @ post) i s)"
proof -
  let ?p = "pre @ engine_segment seg fname ''yaml'' @ post"
  from occurs_at_segment [OF assms] have here: "regex_at (drop (length pre) ?p) = Some seg"
    by (simp only: occurs_at_iff)
  from here have "string_match ?p \<noteq> None"
    by (intro string_match_found [of "length pre"]) simp
  then obtain T where T: "getApiTypeFromFilePath ?p = Some T"
    using string_match_Some regex_at_nonempty
    by (fastforce simp: getApiTypeFromFilePath_def)
  from getApiTypeFromFilePath_Some [OF T] obtain j where j: "occurs_at ?p j T"
    "\<forall>i<j. \<forall>s. \<not> occurs_at ?p i s" by blast
  have "j \<le> length pre"
  proof (rule ccontr)
    assume "\<not> j \<le> length pre"
    then have "length pre < j" by simp
    with j(2) have "\<not> occurs_at ?p (length pre) seg" by blast
    with occurs_at_segment [OF assms] show False by blast
  qed
  with T j show ?thesis by blast
qed

theorem yaml_segment_recognized_witness:
  "\<exists>T j. getApiTypeFromFilePath (''docs/'' @ engine_segment ''widgets'' ''Foo'' ''yaml'' @ ''.bak'') = Some T \<and>
      occurs_at (''docs/'' @ engine_segment ''widgets'' ''Foo'' ''yaml'' @ ''.bak'') j T \<and>
      j \<le> length ''docs/''"
proof -
  from yaml_segment_recognized [of "''widgets''" "''Foo''" "''docs/''" "''.bak''"]
  obtain T j where
    "getApiTypeFromFilePath (''docs/'' @ engine_segment ''widgets'' ''Foo'' ''yaml'' @ ''.bak'') = Some T"
    "occurs_at (''docs/'' @ engine_segment ''widgets'' ''Foo'' ''yaml'' @ ''.bak'') j T"
    "j \<le> length ''docs/''"
    by auto
  then show ?thesis by blast
qed


text \<open>
  Claim C10: the pattern is matched as a substring without anchors. When
  \<^verbatim>\<open>reference/engine/<seg>/<file>.yaml\<close> occurs in a path, whatever precedes it and whatever
  follows the text \<^verbatim>\<open>.yaml\<close>, the extraction returns the segment of the first occurrence.
\<close>

theorem first_occurrence_wins:
  "occurs_at p i seg \<Longrightarrow> (\<forall>j<i. \<forall>s. \<not> occurs_at p j s) \<Longrightarrow>
     getApiTypeFromFilePath p = Some seg"
  by (rule getApiTypeFromFilePath_first)

theorem first_occurrence_wins_witness:
  "occurs_at (''x/'' @ engine_segment ''classes'' ''Foo'' ''yaml'' @ ''.bak'') 2 ''classes'' \<and>
   getApiTypeFromFilePath (''x/'' @ engine_segment ''classes'' ''Foo'' ''yaml'' @ ''.bak'')
     = Some ''classes''"
proof -
  let ?p = "''x/'' @ engine_segment ''classes'' ''Foo'' ''yaml'' @ ''.bak''"
  have occ: "occurs_at ?p 2 ''classes''"
    using occurs_at_segment [of "''classes''" "''Foo''" "''x/''" "''.bak''"]
    by (simp add: numeral_2_eq_2)
  have first: "\<forall>j<2. \<forall>s. \<not> occurs_at ?p j s"
    by (simp add: occurs_at_iff All_less_Suc numeral_eq_Suc regex_at_def engine_segment_def)
  from first_occurrence_wins [OF occ first] occ show ?thesis by simp
qed



section \<open>Properties of checkYamlSchema\<close>

subsection \<open>The branches of the function\<close>

lemma getApiTypeFromFilePath_nonempty: "getApiTypeFromFilePath p = Some T \<Longrightarrow> T \<noteq> []"
  by (auto simp: getApiTypeFromFilePath_def split: option.splits if_splits)

lemma own_schema_path:
  "map_of (schemaPathMap root) T = Some sp \<Longrightarrow>
     get_property (schemaPathMap root) T = OwnString sp \<and> sp \<noteq> []"
  by (auto simp: get_property_def schemaPathMap_def split: if_splits)

lemma no_own_schema_path:
  "T \<notin> fst ` set (schemaPathMap root) \<Longrightarrow>
     get_property (schemaPathMap root) T = Undefined \<or>
     get_property (schemaPathMap root) T = Inherited T"
  by (auto simp: get_property_def schemaPathMap_def split: if_splits)

lemma getValidator_events:
  "getValidator w ajv sp = (evs, r) \<Longrightarrow>
     filter is_comment evs = [] \<and> filter is_summary evs = [] \<and> filter is_console evs = [] \<and>
     filter is_validator_call evs = []"
  by (auto simp: getValidator_def split: sum.splits)

lemma comments_parse_failed:
  "filter is_comment (parse_failed w config filePath e) =
     (if instanceof_YAMLParseError e \<and> postPullRequestComments config
      then [last (parse_failed w config filePath e)] else [])"
  by (simp add: parse_failed_def Let_def)

lemma comments_validation_failed:
  "filter is_comment (validation_failed w config filePath sp errors) =
     (if postPullRequestComments config
      then [last (validation_failed w config filePath sp errors)] else [])"
  by (simp add: validation_failed_def Let_def)

lemma checkYamlSchema_parse_failed:
  "readFileSync w filePath = Inr yamlData \<Longrightarrow> yaml_parse w yamlData = Inl e \<Longrightarrow>
     checkYamlSchema w ajv config content filePath = (parse_failed w config filePath e, Returned)"
  by (simp add: checkYamlSchema_def)

lemma checkYamlSchema_validate:
  "readFileSync w filePath = Inr yamlData \<Longrightarrow> yaml_parse w yamlData = Inr data \<Longrightarrow>
   getApiTypeFromFilePath filePath = Some T \<Longrightarrow>
   map_of (schemaPathMap (repositoryRoot w)) T = Some sp \<Longrightarrow>
     checkYamlSchema w ajv config content filePath = validate_with w ajv config filePath sp data"
  by (simp add: checkYamlSchema_def own_schema_path getApiTypeFromFilePath_nonempty)

lemma no_comment_without_flag:
  "\<not> postPullRequestComments config \<Longrightarrow>
     filter is_comment (fst (checkYamlSchema w ajv config content filePath)) = []"
  by (auto simp: checkYamlSchema_def comments_parse_failed comments_validation_failed
        no_api_type_def no_validator_def validate_with_def
      dest: getValidator_events
      split: sum.splits option.splits property.splits prod.splits)

lemma compile_events_validation_failed:
  "filter is_compile (validation_failed w config filePath sp errors) = []"
  by (simp add: validation_failed_def Let_def)

lemma compiled_filter: "compiled evs = compiled (filter is_compile evs)"
  by (induction evs rule: compiled.induct) simp_all

lemma reaches_compile_once:
  assumes "reaches_compile w filePath schema"
  shows "filter is_compile (fst (checkYamlSchema w ajv config content filePath))
           = [AjvCompile schema]"
    and "ajv_compile w ajv schema = Inl e \<Longrightarrow>
           checkYamlSchema w ajv config content filePath = ([AjvCompile schema], Threw e)"
    and "ajv_compile w ajv schema = Inr validator \<Longrightarrow>
           snd (checkYamlSchema w ajv config content filePath) = Returned"
proof -
  from assms obtain yamlData data T schemaPath schemaText where
    r: "readFileSync w filePath = Inr yamlData" "yaml_parse w yamlData = Inr data"
       "getApiTypeFromFilePath filePath = Some T"
       "map_of (schemaPathMap (repositoryRoot w)) T = Some schemaPath"
    and s: "readFileSync w schemaPath = Inr schemaText" "JSON_parse w schemaText = Inr schema"
    unfolding reaches_compile_def by blast
  from r have c: "checkYamlSchema w ajv config content filePath
                 = validate_with w ajv config filePath schemaPath data"
    by (rule checkYamlSchema_validate)
  from s have g: "getValidator w ajv schemaPath = ([AjvCompile schema], ajv_compile w ajv schema)"
    by (simp add: getValidator_def)
  from c g show "filter is_compile (fst (checkYamlSchema w ajv config content filePath))
           = [AjvCompile schema]"
    by (cases "ajv_compile w ajv schema")
       (auto simp: validate_with_def compile_events_validation_failed split: prod.splits)
  from c g show "ajv_compile w ajv schema = Inl e \<Longrightarrow>
           checkYamlSchema w ajv config content filePath = ([AjvCompile schema], Threw e)"
    by (simp add: validate_with_def)
  from c g show "ajv_compile w ajv schema = Inr validator \<Longrightarrow>
           snd (checkYamlSchema w ajv config content filePath) = Returned"
    by (auto simp: validate_with_def split: prod.splits)
qed


lemma example_reaches_compile:
  "reaches_compile (example_world ''/repo'') ''reference/engine/enums/Ok.yaml'' example_schema"
  "reaches_compile (example_world ''/repo'') ''reference/engine/enums/Empty.yaml'' example_schema"
  "reaches_compile (example_world_with_id ''/repo'') ''reference/engine/enums/Ok.yaml''
     example_schema_with_id"
  "reaches_compile (example_world_with_id ''/repo'') ''reference/engine/enums/Empty.yaml''
     example_schema_with_id"
proof -
  have "getApiTypeFromFilePath ''reference/engine/enums/Ok.yaml'' = Some ''enums''"
    "getApiTypeFromFilePath ''reference/engine/enums/Empty.yaml'' = Some ''enums''"
    by (simp_all add: getApiTypeFromFilePath_def regex_at_def)
  then show
    "reaches_compile (example_world ''/repo'') ''reference/engine/enums/Ok.yaml'' example_schema"
    "reaches_compile (example_world ''/repo'') ''reference/engine/enums/Empty.yaml'' example_schema"
    "reaches_compile (example_world_with_id ''/repo'') ''reference/engine/enums/Ok.yaml''
       example_schema_with_id"
    "reaches_compile (example_world_with_id ''/repo'') ''reference/engine/enums/Empty.yaml''
       example_schema_with_id"
    by (simp_all add: reaches_compile_def example_world_with_id_def example_world_def
          example_files_def example_yaml_def schemaPathMap_def)
qed



text \<open>
  With a schema that carries an \<^verbatim>\<open>$id\<close> the second document of the run ends in the
  exception of \<^verbatim>\<open>ajv.compile\<close>, which was called for it as for the first.
\<close>

lemma second_compile_with_id_throws:
  "process_run (example_world_with_id ''/repo'') []
       [(example_config False, [], ''reference/engine/enums/Ok.yaml''),
        (example_config False, [], ''reference/engine/enums/Empty.yaml'')]
     = ([AjvCompile example_schema_with_id,
         ValidatorCall (JObj [(''values'', JArr [JStr ''A'', JStr ''B''])]),
         AjvCompile example_schema_with_id],
        Threw (OtherError ''Error'' ''schema with key or id enums already exists''))"
proof -
  have t: "getApiTypeFromFilePath ''reference/engine/enums/Ok.yaml'' = Some ''enums''"
    by (simp add: getApiTypeFromFilePath_def regex_at_def)
  have m: "map_of (schemaPathMap ''/repo'') ''enums'' = Some ''/repo/tools/schemas/engine/enums.json''"
    by (simp add: schemaPathMap_def)
  have "checkYamlSchema (example_world_with_id ''/repo'') [] (example_config False) []
          ''reference/engine/enums/Ok.yaml''
        = validate_with (example_world_with_id ''/repo'') [] (example_config False)
            ''reference/engine/enums/Ok.yaml'' ''/repo/tools/schemas/engine/enums.json''
            (JObj [(''values'', JArr [JStr ''A'', JStr ''B''])])"
    using t m
    by (intro checkYamlSchema_validate [where yamlData = "''values: [A, B]''" and T = "''enums''"])
       (simp_all add: example_world_with_id_def example_world_def example_files_def
          example_yaml_def)
  then have first: "checkYamlSchema (example_world_with_id ''/repo'') [] (example_config False) []
          ''reference/engine/enums/Ok.yaml''
        = ([AjvCompile example_schema_with_id,
            ValidatorCall (JObj [(''values'', JArr [JStr ''A'', JStr ''B''])])], Returned)"
    by (simp add: validate_with_def getValidator_def example_world_with_id_def example_world_def
          example_files_def example_validator_def)
  have "ajv_compile (example_world_with_id ''/repo'') [example_schema_with_id]
          example_schema_with_id
        = Inl (OtherError ''Error'' ''schema with key or id enums already exists'')"
    by (simp add: example_world_with_id_def)
  with example_reaches_compile(4)
  have second: "checkYamlSchema (example_world_with_id ''/repo'') [example_schema_with_id]
          (example_config False) [] ''reference/engine/enums/Empty.yaml''
        = ([AjvCompile example_schema_with_id],
           Threw (OtherError ''Error'' ''schema with key or id enums already exists''))"
    by (rule reaches_compile_once(2))
  from first second show ?thesis by simp
qed

subsection \<open>Review comments\<close>

text \<open>
  Claim C1: when \<open>postPullRequestComments\<close> is false, no invocation calls
  \<^verbatim>\<open>createNewPullRequestComment\<close>, whatever the outcome. When it is true and the parser
  raises a \<^verbatim>\<open>YAMLParseError\<close>, exactly one call is made, on the line that the parser
  reports, or on line 1 when the error carries no position. When it is true and the
  validator rejects the document, exactly one call is made, on line 1 and with the
  subject type \<^verbatim>\<open>file\<close>. The validator rejects a document by returning false, which is
  when Ajv leaves the list of violations in \<^verbatim>\<open>errors\<close>; the statement holds for every
  value of \<^verbatim>\<open>errors\<close>.
\<close>

theorem comments_follow_flag:
  "(\<not> postPullRequestComments config \<longrightarrow>
      filter is_comment (fst (checkYamlSchema w ajv config content filePath)) = []) \<and>
   (postPullRequestComments config \<and> readFileSync w filePath = Inr yamlData \<and>
    yaml_parse w yamlData = Inl (YAMLParseError m (Some (p, q))) \<longrightarrow>
      (\<exists>c. filter is_comment (fst (checkYamlSchema w ajv config content filePath))
              = [CreateNewPullRequestComment c] \<and> line c = lp_line p)) \<and>
   (postPullRequestComments config \<and> readFileSync w filePath = Inr yamlData \<and>
    yaml_parse w yamlData = Inl (YAMLParseError m None) \<longrightarrow>
      (\<exists>c. filter is_comment (fst (checkYamlSchema w ajv config content filePath))
              = [CreateNewPullRequestComment c] \<and> line c = 1)) \<and>
   (postPullRequestComments config \<and> readFileSync w filePath = Inr yamlData \<and>
    yaml_parse w yamlData = Inr data \<and> getApiTypeFromFilePath filePath = Some T \<and>
    map_of (schemaPathMap (repositoryRoot w)) T = Some schemaPath \<and>
    getValidator w ajv schemaPath = (evs, Inr validator) \<and> validator data = (False, errors) \<longrightarrow>
      (\<exists>c. filter is_comment (fst (checkYamlSchema w ajv config content filePath))
              = [CreateNewPullRequestComment c] \<and> line c = 1 \<and> subject_type c = Some ''file''))"
proof (intro conjI impI)
  assume "\<not> postPullRequestComments config"
  then show "filter is_comment (fst (checkYamlSchema w ajv config content filePath)) = []"
    by (rule no_comment_without_flag)
next
  assume a: "postPullRequestComments config \<and> readFileSync w filePath = Inr yamlData \<and>
    yaml_parse w yamlData = Inl (YAMLParseError m (Some (p, q)))"
  then have "checkYamlSchema w ajv config content filePath
               = (parse_failed w config filePath (YAMLParseError m (Some (p, q))), Returned)"
    by (simp add: checkYamlSchema_parse_failed)
  with a show "\<exists>c. filter is_comment (fst (checkYamlSchema w ajv config content filePath))
              = [CreateNewPullRequestComment c] \<and> line c = lp_line p"
    by (simp add: parse_failed_def Let_def)
next
  assume a: "postPullRequestComments config \<and> readFileSync w filePath = Inr yamlData \<and>
    yaml_parse w yamlData = Inl (YAMLParseError m None)"
  then have "checkYamlSchema w ajv config content filePath
               = (parse_failed w config filePath (YAMLParseError m None), Returned)"
    by (simp add: checkYamlSchema_parse_failed)
  with a show "\<exists>c. filter is_comment (fst (checkYamlSchema w ajv config content filePath))
              = [CreateNewPullRequestComment c] \<and> line c = 1"
    by (simp add: parse_failed_def Let_def)
next
  assume a: "postPullRequestComments config \<and> readFileSync w filePath = Inr yamlData \<and>
    yaml_parse w yamlData = Inr data \<and> getApiTypeFromFilePath filePath = Some T \<and>
    map_of (schemaPathMap (repositoryRoot w)) T = Some schemaPath \<and>
    getValidator w ajv schemaPath = (evs, Inr validator) \<and> validator data = (False, errors)"
  then have "checkYamlSchema w ajv config content filePath
               = validate_with w ajv config filePath schemaPath data"
    by (simp add: checkYamlSchema_validate)
  moreover from a have "filter is_comment evs = []"
    using getValidator_events by blast
  ultimately show "\<exists>c. filter is_comment (fst (checkYamlSchema w ajv config content filePath))
              = [CreateNewPullRequestComment c] \<and> line c = 1 \<and> subject_type c = Some ''file''"
    using a by (simp add: validate_with_def validation_failed_def Let_def)
qed

theorem comments_follow_flag_witness:
  "filter is_comment (fst (checkYamlSchema (example_world ''/repo'') [] (example_config False) []
       ''reference/engine/enums/Empty.yaml'')) = [] \<and>
   (\<exists>c. filter is_comment (fst (checkYamlSchema (example_world ''/repo'') [] (example_config True) []
       ''reference/engine/enums/Cut.yaml'')) = [CreateNewPullRequestComment c] \<and> line c = 3) \<and>
   (\<exists>c. filter is_comment (fst (checkYamlSchema (example_world ''/repo'') [] (example_config True) []
       ''reference/engine/enums/Bare.yaml'')) = [CreateNewPullRequestComment c] \<and> line c = 1) \<and>
   (\<exists>c. filter is_comment (fst (checkYamlSchema (example_world ''/repo'') [] (example_config True) []
       ''reference/engine/enums/Empty.yaml'')) = [CreateNewPullRequestComment c] \<and> line c = 1 \<and>
       subject_type c = Some ''file'')"
proof (intro conjI)
  show "filter is_comment (fst (checkYamlSchema (example_world ''/repo'') [] (example_config False) []
       ''reference/engine/enums/Empty.yaml'')) = []"
    using comments_follow_flag [where config = "example_config False"]
    by (simp add: example_config_def)
next
  show "\<exists>c. filter is_comment (fst (checkYamlSchema (example_world ''/repo'') [] (example_config True) []
       ''reference/engine/enums/Cut.yaml'')) = [CreateNewPullRequestComment c] \<and> line c = 3"
    using comments_follow_flag [where config = "example_config True"
        and w = "example_world ''/repo''" and filePath = "''reference/engine/enums/Cut.yaml''"
        and yamlData = "''values: [A''" and m = "''Flow sequence must end with a ]''"
        and p = "\<lparr>lp_line = 3, lp_col = 11\<rparr>" and q = None and content = "[]"]
    by (simp add: example_world_def example_files_def example_yaml_def example_config_def)
next
  show "\<exists>c. filter is_comment (fst (checkYamlSchema (example_world ''/repo'') [] (example_config True) []
       ''reference/engine/enums/Bare.yaml'')) = [CreateNewPullRequestComment c] \<and> line c = 1"
    using comments_follow_flag [where config = "example_config True"
        and w = "example_world ''/repo''" and filePath = "''reference/engine/enums/Bare.yaml''"
        and yamlData = "''values: {''" and m = "''Flow map must end with a }''" and content = "[]"]
    by (simp add: example_world_def example_files_def example_yaml_def example_config_def)
next
  have "getApiTypeFromFilePath ''reference/engine/enums/Empty.yaml'' = Some ''enums''"
    by (simp add: getApiTypeFromFilePath_def regex_at_def)
  then show "\<exists>c. filter is_comment (fst (checkYamlSchema (example_world ''/repo'') [] (example_config True) []
       ''reference/engine/enums/Empty.yaml'')) = [CreateNewPullRequestComment c] \<and> line c = 1 \<and>
       subject_type c = Some ''file''"
    using comments_follow_flag [where config = "example_config True"
        and w = "example_world ''/repo''" and filePath = "''reference/engine/enums/Empty.yaml''"
        and yamlData = "''values: []''" and data = "JObj [(''values'', JArr [])]"
        and T = "''enums''" and schemaPath = "''/repo/tools/schemas/engine/enums.json''"
        and evs = "[AjvCompile example_schema]" and validator = example_validator
        and errors = example_errors and content = "[]"]
    by (simp add: example_world_def example_files_def example_yaml_def example_config_def
          example_validator_def schemaPathMap_def getValidator_def)
qed

subsection \<open>Exceptions and returns\<close>

text \<open>
  Claim C3 says that an invocation returns normally on every expected outcome of a
  document, one of them an API type without an entry in the schema table, and that only
  a schema file that cannot be read or parsed raises. The branch for a type without an
  entry tests the truthiness of \<^verbatim>\<open>schemaPathMap[apiType]\<close>; for a directory named like a
  member of \<^verbatim>\<open>Object.prototype\<close> the read gives that member, the test lets it through and
  the invocation ends in a \<^verbatim>\<open>TypeError\<close>, with nothing logged. The document here is valid
  YAML in the directory \<^verbatim>\<open>reference/engine/constructor\<close>.
\<close>

theorem inherited_key_throws:
  "getApiTypeFromFilePath ''reference/engine/constructor/Ok.yaml'' = Some ''constructor'' \<and>
   map_of (schemaPathMap ''/repo'') ''constructor'' = None \<and>
   checkYamlSchema (example_world ''/repo'') [] (example_config False) []
       ''reference/engine/constructor/Ok.yaml'' = ([], Threw path_type_error)"
proof -
  have t: "getApiTypeFromFilePath ''reference/engine/constructor/Ok.yaml'' = Some ''constructor''"
    by (simp add: getApiTypeFromFilePath_def regex_at_def)
  have m: "map_of (schemaPathMap ''/repo'') ''constructor'' = None"
    by (simp add: schemaPathMap_def)
  have p: "get_property (schemaPathMap ''/repo'') ''constructor'' = Inherited ''constructor''"
    by (simp add: get_property_def m Object_prototype_names_def)
  have "checkYamlSchema (example_world ''/repo'') [] (example_config False) []
       ''reference/engine/constructor/Ok.yaml'' = ([], Threw path_type_error)"
    by (simp add: checkYamlSchema_def t p example_world_def example_files_def example_yaml_def)
  with t m show ?thesis by simp
qed

text \<open>
  The rest of claim C3 holds: the other outcomes of a document return, and a schema
  file that cannot be read, or that is no JSON, ends the invocation in the exception of
  the reader or of the parser.
\<close>

lemma expected_outcomes_return:
  assumes "readFileSync w filePath = Inr yamlData"
  shows "yaml_parse w yamlData = Inl e \<Longrightarrow>
           snd (checkYamlSchema w ajv config content filePath) = Returned"
    and "yaml_parse w yamlData = Inr data \<Longrightarrow> getApiTypeFromFilePath filePath = None \<Longrightarrow>
           snd (checkYamlSchema w ajv config content filePath) = Returned"
    and "yaml_parse w yamlData = Inr data \<Longrightarrow> getApiTypeFromFilePath filePath = Some T \<Longrightarrow>
         get_property (schemaPathMap (repositoryRoot w)) T = Undefined \<Longrightarrow>
           snd (checkYamlSchema w ajv config content filePath) = Returned"
    and "yaml_parse w yamlData = Inr data \<Longrightarrow> getApiTypeFromFilePath filePath = Some T \<Longrightarrow>
         map_of (schemaPathMap (repositoryRoot w)) T = Some schemaPath \<Longrightarrow>
         getValidator w ajv schemaPath = (evs, Inr validator) \<Longrightarrow>
           snd (checkYamlSchema w ajv config content filePath) = Returned"
  using assms
  by (auto simp: checkYamlSchema_def no_api_type_def no_validator_def validate_with_def
        own_schema_path getApiTypeFromFilePath_nonempty split: prod.splits)

lemma schema_failures_propagate:
  assumes "readFileSync w filePath = Inr yamlData" "yaml_parse w yamlData = Inr data"
    and "getApiTypeFromFilePath filePath = Some T"
    and "map_of (schemaPathMap (repositoryRoot w)) T = Some schemaPath"
  shows "readFileSync w schemaPath = Inl e \<Longrightarrow>
           checkYamlSchema w ajv config content filePath = ([], Threw e)"
    and "readFileSync w schemaPath = Inr schemaText \<Longrightarrow> JSON_parse w schemaText = Inl e \<Longrightarrow>
           checkYamlSchema w ajv config content filePath = ([], Threw e)"
  using checkYamlSchema_validate [OF assms]
  by (simp_all add: validate_with_def getValidator_def)

lemma inherited_keys_throw:
  assumes "readFileSync w filePath = Inr yamlData" "yaml_parse w yamlData = Inr data"
    and "getApiTypeFromFilePath filePath = Some T" "T \<in> set Object_prototype_names"
  shows "checkYamlSchema w ajv config content filePath = ([], Threw path_type_error)"
proof -
  from assms(4) have "get_property (schemaPathMap (repositoryRoot w)) T = Inherited T"
    by (auto simp: get_property_def schemaPathMap_def Object_prototype_names_def)
  with assms(1-3) show ?thesis
    by (simp add: checkYamlSchema_def getApiTypeFromFilePath_nonempty)
qed

text \<open>
  Claim C4 says that a YAML syntax error never leaves the invocation, and that any other
  failure of the parse step propagates to the caller. The \<^verbatim>\<open>catch\<close> block takes every
  thrown value and returns; the test \<^verbatim>\<open>e instanceof YAMLParseError\<close> guards the review
  comment only. A \<^verbatim>\<open>ReferenceError\<close> of the parser is logged, added to the summary, and the
  invocation returns.
\<close>

theorem other_parse_failure_counterexample:
  "yaml_parse (example_world ''/repo'') ''(aliases nested beyond the alias limit)''
     = Inl (OtherError ''ReferenceError''
              ''Excessive alias count indicates a resource exhaustion attack'') \<and>
   snd (checkYamlSchema (example_world ''/repo'') [] (example_config True) []
          ''reference/engine/enums/Aliases.yaml'') = Returned"
  by (simp add: checkYamlSchema_def example_world_def example_files_def example_yaml_def)

text \<open>
  Claim C4 as amended: whatever \<^verbatim>\<open>parse\<close> throws, a syntax error or not, is handled in
  the invocation, which returns normally after one \<^verbatim>\<open>console.error\<close> line and one entry
  in the summary with the same message; a review comment is made only for a
  \<^verbatim>\<open>YAMLParseError\<close> and only when the flag is set. A failure to read the document, which
  happens before the \<^verbatim>\<open>try\<close>, propagates to the caller with nothing emitted.
\<close>

theorem parse_failures_handled_locally:
  "(readFileSync w filePath = Inr yamlData \<and> yaml_parse w yamlData = Inl e \<longrightarrow>
      snd (checkYamlSchema w ajv config content filePath) = Returned \<and>
      (\<exists>msg. filter (\<lambda>x. is_console x \<or> is_summary x)
                (fst (checkYamlSchema w ajv config content filePath))
              = [ConsoleError msg, AddToSummaryOfRequirements msg]) \<and>
      (filter is_comment (fst (checkYamlSchema w ajv config content filePath)) \<noteq> [] \<longrightarrow>
         instanceof_YAMLParseError e \<and> postPullRequestComments config)) \<and>
   (readFileSync w filePath = Inl e \<longrightarrow>
      checkYamlSchema w ajv config content filePath = ([], Threw e))"
  by (auto simp: checkYamlSchema_def parse_failed_def Let_def)

theorem parse_failures_handled_locally_witness:
  "snd (checkYamlSchema (example_world ''/repo'') [] (example_config True) []
          ''reference/engine/enums/Aliases.yaml'') = Returned \<and>
   (\<exists>msg. filter (\<lambda>x. is_console x \<or> is_summary x)
            (fst (checkYamlSchema (example_world ''/repo'') [] (example_config True) []
                    ''reference/engine/enums/Aliases.yaml''))
          = [ConsoleError msg, AddToSummaryOfRequirements msg]) \<and>
   checkYamlSchema (example_world ''/repo'') [] (example_config True) []
       ''reference/engine/enums/Missing.yaml''
     = ([], Threw (OtherError ''Error'' ''ENOENT: no such file or directory''))"
  using parse_failures_handled_locally [where w = "example_world ''/repo''"
      and filePath = "''reference/engine/enums/Aliases.yaml''"
      and yamlData = "''(aliases nested beyond the alias limit)''"
      and e = "OtherError ''ReferenceError''
                 ''Excessive alias count indicates a resource exhaustion attack''"
      and config = "example_config True" and content = "[]"]
    parse_failures_handled_locally [where w = "example_world ''/repo''"
      and filePath = "''reference/engine/enums/Missing.yaml''"
      and e = "OtherError ''Error'' ''ENOENT: no such file or directory''"
      and config = "example_config True" and content = "[]"]
  by (simp add: example_world_def example_files_def example_yaml_def)

subsection \<open>Compiling the schema\<close>




subsection \<open>What a skipped or a valid document leaves behind\<close>

text \<open>
  Claim C6 says that a skipped document, one whose path gives no API type or whose type
  has no schema, leaves a log line and nothing else, and that a valid document leaves
  nothing. For a type that has no entry in the schema table but the name of a member of
  \<^verbatim>\<open>Object.prototype\<close>, the branch that logs the skip is not taken: the property read gives
  the inherited member, and the invocation ends in a \<^verbatim>\<open>TypeError\<close> with no line on the
  console. The document here is valid YAML in the directory
  \<^verbatim>\<open>reference/engine/toString\<close>. The defect is the one of claim C3.
\<close>

theorem unmapped_type_leaves_no_log_line:
  "getApiTypeFromFilePath ''reference/engine/toString/Ok.yaml'' = Some ''toString'' \<and>
   ''toString'' \<notin> fst ` set (schemaPathMap ''/repo'') \<and>
   filter is_console (fst (checkYamlSchema (example_world ''/repo'') [] (example_config True) []
       ''reference/engine/toString/Ok.yaml'')) = [] \<and>
   snd (checkYamlSchema (example_world ''/repo'') [] (example_config True) []
       ''reference/engine/toString/Ok.yaml'') = Threw path_type_error"
proof -
  have t: "getApiTypeFromFilePath ''reference/engine/toString/Ok.yaml'' = Some ''toString''"
    by (simp add: getApiTypeFromFilePath_def regex_at_def)
  have m: "''toString'' \<notin> fst ` set (schemaPathMap ''/repo'')"
    by (simp add: schemaPathMap_def)
  have p: "get_property (schemaPathMap ''/repo'') ''toString'' = Inherited ''toString''"
    by (simp add: get_property_def schemaPathMap_def Object_prototype_names_def)
  have "checkYamlSchema (example_world ''/repo'') [] (example_config True) []
       ''reference/engine/toString/Ok.yaml'' = ([], Threw path_type_error)"
    by (simp add: checkYamlSchema_def t p example_world_def example_files_def example_yaml_def)
  with t m show ?thesis by simp
qed

text \<open>
  The rest of claim C6 holds. A document whose path gives no type, or whose type reads
  as \<^verbatim>\<open>undefined\<close> in the schema table, leaves one \<^verbatim>\<open>console.log\<close> line and nothing else; no
  type without an entry in the table, whatever the property read gives for it, leads to
  an entry in the summary, a review comment or a call of \<^verbatim>\<open>ajv.compile\<close> or of a
  validator; a valid document leaves no line on the console, no entry in the summary and
  no review comment.
\<close>

lemma skip_and_clean_emit_nothing:
  "readFileSync w filePath = Inr yamlData \<and> yaml_parse w yamlData = Inr data \<longrightarrow>
   (getApiTypeFromFilePath filePath = None \<longrightarrow>
      (\<exists>msg. checkYamlSchema w ajv config content filePath = ([ConsoleLog msg], Returned))) \<and>
   (getApiTypeFromFilePath filePath = Some T \<and>
    get_property (schemaPathMap (repositoryRoot w)) T = Undefined \<longrightarrow>
      (\<exists>msg. checkYamlSchema w ajv config content filePath = ([ConsoleLog msg], Returned))) \<and>
   (getApiTypeFromFilePath filePath = Some T \<and> T \<notin> fst ` set (schemaPathMap (repositoryRoot w)) \<longrightarrow>
      filter is_summary (fst (checkYamlSchema w ajv config content filePath)) = [] \<and>
      filter is_comment (fst (checkYamlSchema w ajv config content filePath)) = [] \<and>
      filter is_compile (fst (checkYamlSchema w ajv config content filePath)) = [] \<and>
      filter is_validator_call (fst (checkYamlSchema w ajv config content filePath)) = []) \<and>
   (getApiTypeFromFilePath filePath = Some T \<and>
    map_of (schemaPathMap (repositoryRoot w)) T = Some schemaPath \<and>
    getValidator w ajv schemaPath = (evs, Inr validator) \<and> fst (validator data) \<longrightarrow>
      snd (checkYamlSchema w ajv config content filePath) = Returned \<and>
      filter is_console (fst (checkYamlSchema w ajv config content filePath)) = [] \<and>
      filter is_summary (fst (checkYamlSchema w ajv config content filePath)) = [] \<and>
      filter is_comment (fst (checkYamlSchema w ajv config content filePath)) = [])"
proof (intro impI conjI)
  assume "readFileSync w filePath = Inr yamlData \<and> yaml_parse w yamlData = Inr data"
    and "getApiTypeFromFilePath filePath = None"
  then show "\<exists>msg. checkYamlSchema w ajv config content filePath = ([ConsoleLog msg], Returned)"
    by (simp add: checkYamlSchema_def no_api_type_def)
next
  assume "readFileSync w filePath = Inr yamlData \<and> yaml_parse w yamlData = Inr data"
    and "getApiTypeFromFilePath filePath = Some T \<and>
         get_property (schemaPathMap (repositoryRoot w)) T = Undefined"
  then show "\<exists>msg. checkYamlSchema w ajv config content filePath = ([ConsoleLog msg], Returned)"
    by (simp add: checkYamlSchema_def no_api_type_def no_validator_def)
next
  assume r: "readFileSync w filePath = Inr yamlData \<and> yaml_parse w yamlData = Inr data"
    and t: "getApiTypeFromFilePath filePath = Some T \<and>
            T \<notin> fst ` set (schemaPathMap (repositoryRoot w))"
  from t no_own_schema_path
  have "get_property (schemaPathMap (repositoryRoot w)) T = Undefined \<or>
        get_property (schemaPathMap (repositoryRoot w)) T = Inherited T" by blast
  with r t have "fst (checkYamlSchema w ajv config content filePath) = [] \<or>
      (\<exists>msg. fst (checkYamlSchema w ajv config content filePath) = [ConsoleLog msg])"
    by (auto simp: checkYamlSchema_def no_api_type_def no_validator_def)
  then show "filter is_summary (fst (checkYamlSchema w ajv config content filePath)) = []"
    and "filter is_comment (fst (checkYamlSchema w ajv config content filePath)) = []"
    and "filter is_compile (fst (checkYamlSchema w ajv config content filePath)) = []"
    and "filter is_validator_call (fst (checkYamlSchema w ajv config content filePath)) = []"
    by auto
next
  assume r: "readFileSync w filePath = Inr yamlData \<and> yaml_parse w yamlData = Inr data"
    and t: "getApiTypeFromFilePath filePath = Some T \<and>
      map_of (schemaPathMap (repositoryRoot w)) T = Some schemaPath \<and>
      getValidator w ajv schemaPath = (evs, Inr validator) \<and> fst (validator data)"
  then have c: "checkYamlSchema w ajv config content filePath
              = validate_with w ajv config filePath schemaPath data"
    by (simp add: checkYamlSchema_validate)
  from t have e: "filter is_console evs = []" "filter is_summary evs = []"
    "filter is_comment evs = []" using getValidator_events by blast+
  from t have v: "validate_with w ajv config filePath schemaPath data
                    = (evs @ [ValidatorCall data], Returned)"
    by (cases "validator data") (simp add: validate_with_def)
  from c v e show "snd (checkYamlSchema w ajv config content filePath) = Returned"
    and "filter is_console (fst (checkYamlSchema w ajv config content filePath)) = []"
    and "filter is_summary (fst (checkYamlSchema w ajv config content filePath)) = []"
    and "filter is_comment (fst (checkYamlSchema w ajv config content filePath)) = []"
    by simp_all
qed

subsection \<open>The schema path in messages\<close>

text \<open>
  Where the text \<open>root/\<close> does not occur again after the root, the reference printed
  for \<open>root/rest\<close> is \<open>rest\<close>.
\<close>

lemma String_split_from_no_sep:
  "sep \<noteq> [] \<Longrightarrow> (\<forall>i. take (length sep) (drop i s) \<noteq> sep) \<Longrightarrow>
     String_split_from sep cur s = [cur @ s]"
proof (induction s arbitrary: cur)
  case Nil
  then show ?case by simp
next
  case (Cons c s)
  from Cons.prems(2) have "take (length sep) (drop 0 (c # s)) \<noteq> sep" by blast
  then have here: "take (length sep) (c # s) \<noteq> sep" by simp
  have "\<forall>i. take (length sep) (drop i s) \<noteq> sep"
  proof
    fix i
    from Cons.prems(2) have "take (length sep) (drop (Suc i) (c # s)) \<noteq> sep" by blast
    then show "take (length sep) (drop i s) \<noteq> sep" by simp
  qed
  with Cons.IH [OF Cons.prems(1)] have "String_split_from sep (cur @ [c]) s = [(cur @ [c]) @ s]"
    by blast
  with here show ?case by simp
qed

lemma String_split_from_at_sep:
  "sep \<noteq> [] \<Longrightarrow> String_split_from sep cur (sep @ rest) = cur # String_split_from sep [] rest"
  by (cases sep) simp_all

lemma schema_reference_strips_root:
  assumes "\<forall>i. take (length (root @ ''/'')) (drop i rest) \<noteq> root @ ''/''"
  shows "schema_reference root (root @ ''/'' @ rest) = rest"
proof -
  have ne: "root @ ''/'' \<noteq> []" by simp
  have "String_split (root @ ''/'') ((root @ ''/'') @ rest) = [[], rest]"
    unfolding String_split_def
    using String_split_from_at_sep [OF ne, of "[]" rest]
      String_split_from_no_sep [OF ne assms, of "[]"]
    by simp
  then show ?thesis by (simp add: schema_reference_def template_index_def)
qed

text \<open>
  Claim C7 says that for every repository root the reference printed for
  \<^verbatim>\<open><root>/tools/schemas/engine/<name>.json\<close> is \<^verbatim>\<open>tools/schemas/engine/<name>.json\<close>. The
  reference is element 1 of the path split at every occurrence of \<open>root/\<close>, so it ends
  where \<open>root/\<close> occurs a second time. With the repository at \<^verbatim>\<open>/engine\<close> the reference
  printed for the schema of enums is \<^verbatim>\<open>tools/schemas\<close>, and that is the text in the
  console line of an invalid enum document.
\<close>

theorem schema_reference_under_engine_root:
  "map_of (schemaPathMap ''/engine'') ''enums'' = Some ''/engine/tools/schemas/engine/enums.json'' \<and>
   schema_reference ''/engine'' ''/engine/tools/schemas/engine/enums.json'' = ''tools/schemas'' \<and>
   filter is_console (fst (checkYamlSchema (example_world ''/engine'') [] (example_config False) []
       ''reference/engine/enums/Empty.yaml''))
     = [ConsoleLog (''(no entry) Requirement: In reference/engine/enums/Empty.yaml, ''
                    @ ''error validating YAML against schema tools/schemas:\<newline>[ minItems ]'')]"
proof -
  have m: "map_of (schemaPathMap ''/engine'') ''enums'' = Some ''/engine/tools/schemas/engine/enums.json''"
    by (simp add: schemaPathMap_def)
  have r: "schema_reference ''/engine'' ''/engine/tools/schemas/engine/enums.json'' = ''tools/schemas''"
    by (simp add: schema_reference_def String_split_def template_index_def)
  have t: "getApiTypeFromFilePath ''reference/engine/enums/Empty.yaml'' = Some ''enums''"
    by (simp add: getApiTypeFromFilePath_def regex_at_def)
  have c: "checkYamlSchema (example_world ''/engine'') [] (example_config False) []
             ''reference/engine/enums/Empty.yaml''
           = validate_with (example_world ''/engine'') [] (example_config False)
               ''reference/engine/enums/Empty.yaml'' ''/engine/tools/schemas/engine/enums.json''
               (JObj [(''values'', JArr [])])"
    using t m
    by (intro checkYamlSchema_validate [where yamlData = "''values: []''" and T = "''enums''"])
       (simp_all add: example_world_def example_files_def example_yaml_def)
  have "filter is_console (fst (validate_with (example_world ''/engine'') [] (example_config False)
               ''reference/engine/enums/Empty.yaml'' ''/engine/tools/schemas/engine/enums.json''
               (JObj [(''values'', JArr [])])))
     = [ConsoleLog (''(no entry) Requirement: In reference/engine/enums/Empty.yaml, ''
                    @ ''error validating YAML against schema tools/schemas:\<newline>[ minItems ]'')]"
    by (simp add: validate_with_def getValidator_def validation_failed_def r Let_def
          example_world_def example_files_def example_validator_def example_errors_def
          example_config_def)
  with m r c show ?thesis by simp
qed

subsection \<open>The content argument\<close>

text \<open>
  Claim C9: two invocations that differ only in \<open>content\<close> do the same: the same calls
  in the same order and the same completion. The document is read from \<open>filePath\<close>.
\<close>

theorem content_is_ignored:
  "checkYamlSchema w ajv config content1 filePath = checkYamlSchema w ajv config content2 filePath"
  by (simp add: checkYamlSchema_def)

end
